theory Spec2Isabelle
  imports Main "HOL-Library.Word"
begin

unbundle bit_operations_syntax

section \<open>Machine types and constants\<close>

text \<open>
  The sketch targets an Arduino: \<open>byte\<close> is 8 bits and \<open>unsigned long\<close> (the type
  of \<open>micros()\<close> and of every deadline) is 32 bits, so the clock width W is 32.
  \<open>payload_len\<close> is an \<open>unsigned int\<close>; it is built from two bytes and only
  decremented while positive, so 16 bits hold it on every board. The \<open>int\<close> counters
  (\<open>key_count\<close>, the loop indices, \<open>magic_idx\<close>) stay within 0..128 and are
  natural numbers here; \<open>garbage\<close> and \<open>static_runs\<close> are only printed and are
  modelled as unbounded integers.
\<close>

type_synonym byte = "8 word"
type_synonym ulong = "32 word"
type_synonym uint16 = "16 word"

abbreviation SETUPCMD_FINISH :: byte where "SETUPCMD_FINISH \<equiv> 0x0F"
abbreviation SETUPCMD_ADD_KEY :: byte where "SETUPCMD_ADD_KEY \<equiv> 0xAD"
abbreviation SETUPCMD_SET_DEBOUNCE :: byte where "SETUPCMD_SET_DEBOUNCE \<equiv> 0xDB"
abbreviation SETUPCMD_AWAIT_SMOOTHNESS :: byte where "SETUPCMD_AWAIT_SMOOTHNESS \<equiv> 0xAE"
abbreviation CMD_RESET :: byte where "CMD_RESET \<equiv> 0xEE"
abbreviation SETUPCMD_ENABLE_INTERRUPTS :: byte where "SETUPCMD_ENABLE_INTERRUPTS \<equiv> 0xEA"

abbreviation MAX_KEYS :: nat where "MAX_KEYS \<equiv> 128"

text \<open>The bytes of \<open>'S','e','r','K','e','y','0','1'\<close>.\<close>

definition MAGIC_NUMBER :: "byte list" where
  "MAGIC_NUMBER = [0x53, 0x65, 0x72, 0x4B, 0x65, 0x79, 0x30, 0x31]"

section \<open>Timer, Key and State (the header that dancepad.ino is written against)\<close>

text \<open>
  \<open>dancepad.ino\<close> calls \<open>state->init()\<close>, \<open>key->init(pin)\<close> and
  \<open>key->debounce_timer.check_now()\<close>: it is written against the \<open>structs.h\<close> that
  declares \<open>Timer\<close> and gives \<open>Key\<close> a \<open>debounce_timer\<close>. That header is the one
  embedded here. (The older \<open>structs.h\<close>, with \<open>next_update\<close> in place of the timer, has
  none of these members.) \<open>Timer::init\<close> and \<open>Key::init\<close> leave \<open>timeout\<close> as it was.
\<close>

record Timer =
  timeout :: ulong
  enabled :: bool

definition Timer_init :: "Timer \<Rightarrow> Timer" where
  "Timer_init t = t\<lparr>enabled := False\<rparr>"

definition Timer_set :: "Timer \<Rightarrow> ulong \<Rightarrow> Timer" where
  "Timer_set t deadline = t\<lparr>timeout := deadline, enabled := True\<rparr>"

text \<open>
  \<open>Timer::check\<close>: the result and the timer afterwards. The test
  \<open>(signed long)(now - timeout) >= 0\<close> is the signed reading of the wrapped difference.
\<close>

definition Timer_check :: "Timer \<Rightarrow> ulong \<Rightarrow> bool \<times> Timer" where
  "Timer_check t now =
     (let expired = (enabled t \<and> 0 \<le> sint (now - timeout t))
      in (expired, if expired then t\<lparr>enabled := False\<rparr> else t))"

text \<open>Successive calls of \<open>check\<close> on one timer with no \<open>set\<close> in between.\<close>

fun Timer_checks :: "Timer \<Rightarrow> ulong list \<Rightarrow> bool list \<times> Timer" where
  "Timer_checks t [] = ([], t)"
| "Timer_checks t (now # nows) =
     (let (r, t1) = Timer_check t now;
          (rs, t2) = Timer_checks t1 nows
      in (r # rs, t2))"

record Key =
  pin :: byte
  was_down :: bool
  debounce_timer :: Timer

definition Key_init :: "Key \<Rightarrow> byte \<Rightarrow> Key" where
  "Key_init k p = k\<lparr>pin := p, was_down := False, debounce_timer := Timer_init (debounce_timer k)\<rparr>"

text \<open>\<open>keys\<close> is the array \<open>Key keys[MAX_KEYS]\<close>: a list of 128 entries.\<close>

record State =
  debounce_micros :: ulong
  await_smoothness :: bool
  enable_interrupts :: bool
  keys :: "Key list"
  key_count :: nat

definition State_init :: "State \<Rightarrow> State" where
  "State_init st = st\<lparr>debounce_micros := 1000, await_smoothness := True,
                       enable_interrupts := False, key_count := 0\<rparr>"

section \<open>The board: clock, pins, serial port\<close>

text \<open>
  What the serial port carries out: single bytes (\<open>Serial.write\<close>) and the pieces of
  the diagnostic text (\<open>Serial.print\<close>, \<open>Serial.println\<close>): literal text, decimal
  numbers, the debounce time printed in milliseconds, and line ends.
\<close>

datatype serial_out = Byte byte | Text string | Num int | Millis ulong | Newline

datatype pin_mode = INPUT | INPUT_PULLUP

datatype hw_op = PinMode byte pin_mode | AttachInterrupt byte | DetachInterrupt byte

text \<open>
  Everything outside \<open>State\<close>: the two static variables, the interrupt flag, the
  microsecond clock (\<open>micros_src n\<close> is what the n-th call of \<open>micros()\<close> returns),
  the pins (\<open>pin_low p\<close> is \<open>digitalRead(p) == LOW\<close>), the bytes waiting on the
  serial input, the serial output so far and the pin set-up calls so far.
\<close>

record env =
  static_runs :: int
  min_tick_time :: ulong
  irq_on :: bool
  micros_src :: "nat \<Rightarrow> ulong"
  micros_calls :: nat
  pin_low :: "byte \<Rightarrow> bool"
  rx :: "byte list"
  tx :: "serial_out list"
  hw :: "hw_op list"

definition micros :: "env \<Rightarrow> ulong \<times> env" where
  "micros e = (micros_src e (micros_calls e), e\<lparr>micros_calls := Suc (micros_calls e)\<rparr>)"

definition Serial_out :: "serial_out list \<Rightarrow> env \<Rightarrow> env" where
  "Serial_out xs e = e\<lparr>tx := tx e @ xs\<rparr>"

definition Serial_write :: "byte \<Rightarrow> env \<Rightarrow> env" where
  "Serial_write b e = Serial_out [Byte b] e"

definition hw_call :: "hw_op \<Rightarrow> env \<Rightarrow> env" where
  "hw_call x e = e\<lparr>hw := hw e @ [x]\<rparr>"

text \<open>
  \<open>next_serial_byte\<close> spins until a byte is there. \<open>rx\<close> holds the bytes the host
  sends; when it is empty the device stays parked in the read: \<open>None\<close>.
\<close>

definition next_serial_byte :: "env \<Rightarrow> (byte \<times> env) option" where
  "next_serial_byte e = (case rx e of [] \<Rightarrow> None | b # bs \<Rightarrow> Some (b, e\<lparr>rx := bs\<rparr>))"

text \<open>\<open>Serial.read()\<close> does not wait: -1 when nothing is there.\<close>

definition Serial_read :: "env \<Rightarrow> int \<times> env" where
  "Serial_read e = (case rx e of [] \<Rightarrow> (- 1, e) | b # bs \<Rightarrow> (uint b, e\<lparr>rx := bs\<rparr>))"

section \<open>Configuration setters and key registration\<close>

definition set_debounce :: "State \<Rightarrow> ulong \<Rightarrow> env \<Rightarrow> State \<times> env" where
  "set_debounce st debounce e =
     (st\<lparr>debounce_micros := debounce\<rparr>,
      Serial_out [Text ''set debounce to '', Millis debounce, Text ''ms'', Newline] e)"

definition set_await_smoothness :: "State \<Rightarrow> bool \<Rightarrow> env \<Rightarrow> State \<times> env" where
  "set_await_smoothness st await e =
     (st\<lparr>await_smoothness := await\<rparr>,
      Serial_out ([Text ''key state changes ''] @ (if \<not> await then [Text ''don't ''] else [])
                  @ [Text ''reset the debounce timer'', Newline]) e)"

definition set_enable_interrupts :: "State \<Rightarrow> bool \<Rightarrow> env \<Rightarrow> State \<times> env" where
  "set_enable_interrupts st enable e =
     (st\<lparr>enable_interrupts := enable\<rparr>,
      Serial_out ((if \<not> enable then [Text ''not ''] else [])
                  @ [Text ''listening to pin state change interrupts'', Newline]) e)"

definition Key_setup :: "State \<Rightarrow> byte \<Rightarrow> env \<Rightarrow> State \<times> env" where
  "Key_setup st p e =
     (if key_count st < MAX_KEYS
      then (st\<lparr>keys := (keys st)[key_count st := Key_init (keys st ! key_count st) p],
                key_count := key_count st + 1\<rparr>,
            Serial_out [Text ''added key '', Num (int (key_count st)), Text '' to pin '',
                        Num (uint p), Newline] e)
      else (st, Serial_out [Text ''max key limit reached'', Newline] e))"

section \<open>Key_tick\<close>

text \<open>The event byte \<open>(byte)((i & 0x7F) | (is_down ? 0x80 : 0x00))\<close>.\<close>

definition event_byte :: "nat \<Rightarrow> bool \<Rightarrow> byte" where
  "event_byte i down = (of_nat i AND 0x7F) OR (if down then 0x80 else 0x00)"

text \<open>The body of the \<open>for\<close> loop of \<open>Key_tick\<close> for key number \<open>i\<close>
  (\<open>down\<close> is the source's \<open>is_down\<close>).\<close>

definition Key_tick_key :: "bool \<Rightarrow> ulong \<Rightarrow> nat \<Rightarrow> Key \<Rightarrow> env \<Rightarrow> Key \<times> env" where
  "Key_tick_key await dmicros i key e =
     (let down = pin_low e (pin key) in
      if was_down key \<noteq> down then
        (let (now, e1) = micros e;
             (debounce, tm) = Timer_check (debounce_timer key) now;
             key1 = key\<lparr>debounce_timer := tm\<rparr>;
             (key2, e2) = (if \<not> debounce
                           then (key1\<lparr>was_down := down\<rparr>, Serial_write (event_byte i down) e1)
                           else (key1, e1))
         in if await \<or> \<not> debounce
            then (let (now2, e3) = micros e2
                  in (key2\<lparr>debounce_timer := Timer_set (debounce_timer key2) (now2 + dmicros)\<rparr>, e3))
            else (key2, e2))
      else (key, e))"

function Key_tick_loop :: "State \<Rightarrow> env \<Rightarrow> nat \<Rightarrow> State \<times> env" where
  "Key_tick_loop st e i =
     (if i < key_count st
      then (let (key, e') = Key_tick_key (await_smoothness st) (debounce_micros st) i (keys st ! i) e
            in Key_tick_loop (st\<lparr>keys := (keys st)[i := key]\<rparr>) e' (Suc i))
      else (st, e))"
  by pat_completeness auto
termination
  by (relation "measure (\<lambda>(st, e, i). key_count st - i)") auto

declare Key_tick_loop.simps [simp del]

definition Key_tick :: "State \<Rightarrow> env \<Rightarrow> State \<times> env" where
  "Key_tick st e =
     (let (t, e1) = micros (e\<lparr>irq_on := False\<rparr>) in
      if t < min_tick_time e1 then (st, e1\<lparr>irq_on := True\<rparr>)
      else (let (st', e2) = Key_tick_loop st e1 0;
                (t', e3) = micros e2
            in (st', e3\<lparr>min_tick_time := t' + 50, irq_on := True\<rparr>)))"

section \<open>State_run: handshake, setup commands, pin set-up\<close>

text \<open>
  The loop that reads the magic number, on the bytes the host sends: \<open>None\<close> when
  they run out before the loop ends (the device stays in the loop), else the garbage
  count and the bytes not yet read.
\<close>

fun resync :: "nat \<Rightarrow> int \<Rightarrow> byte list \<Rightarrow> (int \<times> byte list) option" where
  "resync magic_idx garbage [] = (if magic_idx < 8 then None else Some (garbage, []))"
| "resync magic_idx garbage (b # bs) =
     (if magic_idx < 8
      then (if b \<noteq> MAGIC_NUMBER ! magic_idx
            then resync 0 (garbage + int (magic_idx + 1)) bs
            else resync (magic_idx + 1) garbage bs)
      else Some (garbage, b # bs))"

definition read_magic :: "env \<Rightarrow> (int \<times> env) option" where
  "read_magic e =
     (case resync 0 0 (rx e) of None \<Rightarrow> None | Some (garbage, bs) \<Rightarrow> Some (garbage, e\<lparr>rx := bs\<rparr>))"

text \<open>
  How the command loop is left or continued: \<open>Continue\<close> is \<open>process_commands\<close> still
  true, \<open>Finished\<close> is \<open>process_commands = false\<close>, \<open>ResetRequested\<close> is
  \<open>goto quit\<close>.
\<close>

datatype cmd_result = Continue | Finished | ResetRequested

text \<open>
  \<open>((unsigned int)next_serial_byte())<<8 | (unsigned int)next_serial_byte()\<close>, the
  bytes taken in the order they are written (as for the four bytes of the debounce time).
\<close>

definition payload_length :: "byte \<Rightarrow> byte \<Rightarrow> uint16" where
  "payload_length hi lo = push_bit 8 (ucast hi) OR ucast lo"

definition debounce_value :: "byte \<Rightarrow> byte \<Rightarrow> byte \<Rightarrow> byte \<Rightarrow> ulong" where
  "debounce_value b3 b2 b1 b0 =
     push_bit 24 (ucast b3) OR push_bit 16 (ucast b2) OR push_bit 8 (ucast b1) OR ucast b0"

text \<open>The loop "Read excess bytes".\<close>

function drain_payload :: "uint16 \<Rightarrow> env \<Rightarrow> env option" where
  "drain_payload payload_len e =
     (if payload_len > 0
      then (case next_serial_byte e of None \<Rightarrow> None
            | Some (b, e') \<Rightarrow> drain_payload (payload_len - 1) e')
      else Some e)"
  by pat_completeness auto
termination
  by (relation "measure (\<lambda>(payload_len, e). length (rx e))")
     (auto simp: next_serial_byte_def split: list.splits)

declare drain_payload.simps [simp del]

text \<open>
  The \<open>switch\<close> on the command byte: the result, what is left of \<open>payload_len\<close>,
  the state and the board; \<open>None\<close> when a payload byte it waits for never comes.
\<close>

definition State_dispatch ::
  "byte \<Rightarrow> uint16 \<Rightarrow> State \<Rightarrow> env \<Rightarrow> (cmd_result \<times> uint16 \<times> State \<times> env) option" where
  "State_dispatch cmd payload_len st e =
     (if cmd = SETUPCMD_FINISH then
        Some (Finished, payload_len, st,
              Serial_out [Text ''finished handling setup commands'', Newline] e)
      else if cmd = SETUPCMD_ADD_KEY then
        (if payload_len < 1 then
           Some (Continue, payload_len, st, Serial_out [Text ''ADD_KEY command too short'', Newline] e)
         else (case next_serial_byte e of None \<Rightarrow> None
               | Some (p, e1) \<Rightarrow>
                   (let (st', e2) = Key_setup st p e1 in Some (Continue, payload_len - 1, st', e2))))
      else if cmd = SETUPCMD_SET_DEBOUNCE then
        (if payload_len < 4 then
           Some (Continue, payload_len, st,
                 Serial_out [Text ''SET_DEBOUNCE command too short'', Newline] e)
         else (case next_serial_byte e of None \<Rightarrow> None
               | Some (b3, e1) \<Rightarrow>
              (case next_serial_byte e1 of None \<Rightarrow> None
               | Some (b2, e2) \<Rightarrow>
              (case next_serial_byte e2 of None \<Rightarrow> None
               | Some (b1, e3) \<Rightarrow>
              (case next_serial_byte e3 of None \<Rightarrow> None
               | Some (b0, e4) \<Rightarrow>
                   (let (st', e5) = set_debounce st (debounce_value b3 b2 b1 b0) e4
                    in Some (Continue, payload_len - 4, st', e5)))))))
      else if cmd = SETUPCMD_AWAIT_SMOOTHNESS then
        (if payload_len < 1 then
           Some (Continue, payload_len, st,
                 Serial_out [Text ''AWAIT_SMOOTHNESS command too short'', Newline] e)
         else (case next_serial_byte e of None \<Rightarrow> None
               | Some (b, e1) \<Rightarrow>
                   (let (st', e2) = set_await_smoothness st (b \<noteq> 0) e1
                    in Some (Continue, payload_len - 1, st', e2))))
      else if cmd = CMD_RESET then
        Some (ResetRequested, payload_len, st, Serial_out [Text ''reset requested'', Newline] e)
      else if cmd = SETUPCMD_ENABLE_INTERRUPTS then
        (if payload_len < 1 then
           Some (Continue, payload_len, st,
                 Serial_out [Text ''ENABLE_INTERRUPTS command too short'', Newline] e)
         else (case next_serial_byte e of None \<Rightarrow> None
               | Some (b, e1) \<Rightarrow>
                   (let (st', e2) = set_enable_interrupts st (b \<noteq> 0) e1
                    in Some (Continue, payload_len - 1, st', e2))))
      else
        Some (Continue, payload_len, st,
              Serial_out [Text ''unknown command: '', Num (uint cmd), Newline] e))"

text \<open>
  One pass of the command loop: command byte, two length bytes, the \<open>switch\<close>, then
  the excess bytes, which \<open>goto quit\<close> jumps over.
\<close>

definition State_command :: "State \<Rightarrow> env \<Rightarrow> (cmd_result \<times> State \<times> env) option" where
  "State_command st e =
     (case next_serial_byte e of None \<Rightarrow> None
      | Some (cmd, e1) \<Rightarrow>
     (case next_serial_byte e1 of None \<Rightarrow> None
      | Some (hi, e2) \<Rightarrow>
     (case next_serial_byte e2 of None \<Rightarrow> None
      | Some (lo, e3) \<Rightarrow>
     (case State_dispatch cmd (payload_length hi lo) st e3 of None \<Rightarrow> None
      | Some (r, payload_len, st', e4) \<Rightarrow>
          if r = ResetRequested then Some (r, st', e4)
          else (case drain_payload payload_len e4 of None \<Rightarrow> None
                | Some e5 \<Rightarrow> Some (r, st', e5))))))"

text \<open>The command loop \<open>while (process_commands)\<close>.\<close>

function State_commands :: "State \<Rightarrow> env \<Rightarrow> (cmd_result \<times> State \<times> env) option" where
  "State_commands st e =
     (case State_command st e of None \<Rightarrow> None
      | Some (r, st', e') \<Rightarrow> if r = Continue then State_commands st' e' else Some (r, st', e'))"
  by pat_completeness auto
termination
proof (relation "measure (\<lambda>(st, e). length (rx e))")
  show "wf (measure (\<lambda>(st, e). length (rx e)))" by simp
next
  fix st e x2 r y st' e'
  assume a: "State_command st e = Some x2" "(r, y) = x2" "(st', e') = y" "r = Continue"
  have nb: "\<And>e b e1. next_serial_byte e = Some (b, e1) \<Longrightarrow> length (rx e) = Suc (length (rx e1))"
    by (auto simp: next_serial_byte_def split: list.splits)
  have dr: "\<And>n e e1. drain_payload n e = Some e1 \<Longrightarrow> length (rx e1) \<le> length (rx e)"
  proof -
    fix n e e1 show "drain_payload n e = Some e1 \<Longrightarrow> length (rx e1) \<le> length (rx e)"
    proof (induction n e rule: drain_payload.induct)
      case (1 payload_len e)
      show ?case
      proof (cases "payload_len > 0")
        case True
        with "1.prems" obtain b e2 where n: "next_serial_byte e = Some (b, e2)"
          and d: "drain_payload (payload_len - 1) e2 = Some e1"
          by (subst (asm) drain_payload.simps) (auto split: option.splits)
        from "1.IH" [OF True n refl d] nb [OF n] show ?thesis by simp
      next
        case False
        with "1.prems" show ?thesis by (subst (asm) drain_payload.simps) simp
      qed
    qed
  qed
  have di: "\<And>c n s e r n1 s1 e1. State_dispatch c n s e = Some (r, n1, s1, e1)
              \<Longrightarrow> length (rx e1) \<le> length (rx e)"
    by (auto simp: State_dispatch_def Serial_out_def Key_setup_def set_debounce_def
          set_await_smoothness_def set_enable_interrupts_def Let_def
          split: if_splits option.splits dest!: nb)
  from a have "length (rx e') < length (rx e)"
    by (auto simp: State_command_def split: option.splits if_splits dest!: nb dr di)
  then show "((st', e'), (st, e)) \<in> measure (\<lambda>(st, e). length (rx e))" by simp
qed

declare State_commands.simps [simp del]

text \<open>
  "Check this pin hasn't already been setup": the inner loop over \<open>j < i\<close> finds a key
  before number \<open>i\<close> with the same pin.
\<close>

definition already_setup :: "Key list \<Rightarrow> nat \<Rightarrow> bool" where
  "already_setup ks i = list_ex (\<lambda>k. pin k = pin (ks ! i)) (take i ks)"

function open_pins :: "State \<Rightarrow> env \<Rightarrow> nat \<Rightarrow> env" where
  "open_pins st e i =
     (if i < key_count st
      then (let key = keys st ! i in
            if \<not> already_setup (keys st) i
            then (let e1 = Serial_out [Text ''opening pin '', Num (uint (pin key)), Newline] e;
                      e2 = hw_call (PinMode (pin key) INPUT_PULLUP) e1;
                      e3 = (if enable_interrupts st then hw_call (AttachInterrupt (pin key)) e2 else e2)
                  in open_pins st e3 (Suc i))
            else open_pins st e (Suc i))
      else e)"
  by pat_completeness auto
termination
  by (relation "measure (\<lambda>(st, e, i). key_count st - i)") auto

declare open_pins.simps [simp del]

text \<open>The loop after the label \<open>quit\<close>.\<close>

function cleanup_pins :: "State \<Rightarrow> env \<Rightarrow> nat \<Rightarrow> env" where
  "cleanup_pins st e i =
     (if i < key_count st
      then (let key = keys st ! i;
                e1 = hw_call (PinMode (pin key) INPUT) e;
                e2 = hw_call (DetachInterrupt (pin key)) e1
            in cleanup_pins st e2 (Suc i))
      else e)"
  by pat_completeness auto
termination
  by (relation "measure (\<lambda>(st, e, i). key_count st - i)") auto

declare cleanup_pins.simps [simp del]

text \<open>
  \<open>State_run\<close> from its first line to the entry of the input loop (\<open>Streaming\<close>), or
  to its end when a reset command cut the setup short (\<open>Quit\<close>); \<open>None\<close> when the
  host stops sending before that.
\<close>

datatype phase = Streaming | Quit

definition State_setup :: "State \<Rightarrow> env \<Rightarrow> (phase \<times> State \<times> env) option" where
  "State_setup st0 e0 =
     (let st = State_init st0 in
      case read_magic e0 of None \<Rightarrow> None
      | Some (garbage, e1) \<Rightarrow>
          (let e2 = Serial_out (map Byte MAGIC_NUMBER @
                      [Text ''read '', Num garbage, Text '' bytes of garbage before magic number'',
                       Newline, Text ''run #'', Num (static_runs e1), Text '' since last reset'',
                       Newline, Text ''handling setup commands'', Newline]) e1
           in case State_commands st e2 of None \<Rightarrow> None
              | Some (r, st', e3) \<Rightarrow>
                  if r = ResetRequested then Some (Quit, st', cleanup_pins st' e3 0)
                  else Some (Streaming, st',
                             Serial_out [Text ''finished setting up, handling input'', Newline, Newline]
                               (open_pins st' e3 0))))"

text \<open>
  One pass of the input loop \<open>while(true)\<close>: \<open>Key_tick\<close>, then one \<open>Serial.read()\<close>;
  on the reset byte the clean-up runs and \<open>State_run\<close> returns.
\<close>

definition stream_iteration :: "State \<Rightarrow> env \<Rightarrow> phase \<times> State \<times> env" where
  "stream_iteration st e =
     (let (st1, e1) = Key_tick st e;
          (c, e2) = Serial_read e1
      in if c = uint CMD_RESET then (Quit, st1, cleanup_pins st1 e2 0) else (Streaming, st1, e2))"

section \<open>Calling Key_tick repeatedly, and concrete boards\<close>

text \<open>
  Successive calls of \<open>Key_tick\<close>, one per entry of the list; the entry is what the pins
  read during that call.
\<close>

fun Key_ticks :: "State \<Rightarrow> env \<Rightarrow> (byte \<Rightarrow> bool) list \<Rightarrow> State \<times> env" where
  "Key_ticks st e [] = (st, e)"
| "Key_ticks st e (p # ps) = (let (st1, e1) = Key_tick st (e\<lparr>pin_low := p\<rparr>) in Key_ticks st1 e1 ps)"

text \<open>
  A key has a pending change when the state last reported (\<open>was_down\<close>) differs from
  what its pin reads.
\<close>

definition pending :: "State \<Rightarrow> env \<Rightarrow> nat \<Rightarrow> bool" where
  "pending st e i = (was_down (keys st ! i) \<noteq> pin_low e (pin (keys st ! i)))"

definition no_pending :: "State \<Rightarrow> env \<Rightarrow> bool" where
  "no_pending st e = list_all (\<lambda>i. \<not> pending st e i) [0..<key_count st]"

text \<open>
  Concrete inputs. \<open>boot_state\<close> is the zero-initialised \<open>static_state\<close>;
  \<open>boot_env ts bs\<close> is the board after \<open>setup()\<close>, in the first run, whose clock returns
  the readings \<open>ts\<close> one after the other (the last one from then on), whose pins all
  read HIGH and whose host sends \<open>bs\<close>; \<open>pin5_down\<close> reads pin 5 LOW.
  \<open>demo_state\<close> is the state with which the input loop starts when the host registered
  pin 5 as its only key; \<open>armed_key\<close> is a key reported up whose timer is armed for
  the instant 1000.
\<close>

definition zero_key :: Key where
  "zero_key = \<lparr>pin = 0, was_down = False, debounce_timer = \<lparr>timeout = 0, enabled = False\<rparr>\<rparr>"

definition boot_state :: State where
  "boot_state = \<lparr>debounce_micros = 0, await_smoothness = False, enable_interrupts = False,
                  keys = replicate MAX_KEYS zero_key, key_count = 0\<rparr>"

definition clock_of :: "ulong list \<Rightarrow> nat \<Rightarrow> ulong" where
  "clock_of ts n = (if n < length ts then ts ! n else last ts)"

definition pins_up :: "byte \<Rightarrow> bool" where
  "pins_up p = False"

definition pin5_down :: "byte \<Rightarrow> bool" where
  "pin5_down p = (p = 5)"

definition boot_env :: "ulong list \<Rightarrow> byte list \<Rightarrow> env" where
  "boot_env ts bs = \<lparr>static_runs = 1, min_tick_time = 0, irq_on = True, micros_src = clock_of ts,
                      micros_calls = 0, pin_low = pins_up, rx = bs, tx = [], hw = []\<rparr>"

definition pressed_env :: "ulong list \<Rightarrow> env" where
  "pressed_env ts = (boot_env ts [])\<lparr>pin_low := pin5_down\<rparr>"

definition demo_state :: State where
  "demo_state = \<lparr>debounce_micros = 1000, await_smoothness = True, enable_interrupts = False,
                  keys = (replicate MAX_KEYS zero_key)[0 := zero_key\<lparr>pin := 5\<rparr>], key_count = 1\<rparr>"

definition armed_key :: Key where
  "armed_key = \<lparr>pin = 5, was_down = False, debounce_timer = \<lparr>timeout = 1000, enabled = True\<rparr>\<rparr>"


text \<open>
  \<open>loop()\<close> once more after \<open>State_run\<close> has returned: it counts the run and calls
  \<open>State_run\<close> again on the same static state and board. (While \<open>State_run\<close> is in
  its input loop or parked in a read, \<open>loop()\<close> has not returned: \<open>None\<close>.)
\<close>

definition loop_next :: "(phase \<times> State \<times> env) option \<Rightarrow> (phase \<times> State \<times> env) option" where
  "loop_next r =
     (case r of
        Some (Quit, st, e) \<Rightarrow> State_setup st (e\<lparr>static_runs := static_runs e + 1\<rparr>)
      | _ \<Rightarrow> None)"

section \<open>The timer\<close>

lemma uint_lt_iff_unat: "(uint (x :: ulong) < 2 ^ 31) = (unat x < 2 ^ 31)"
proof -
  have "uint x = int (unat x)" by simp
  then have "(uint x < 2147483648) = (unat x < 2147483648)"
    by arith
  then show ?thesis by simp
qed

lemma bit31_int: "0 \<le> (k::int) \<Longrightarrow> k < 2 ^ 32 \<Longrightarrow> bit k 31 = (2 ^ 31 \<le> k)"
proof -
  assume a: "0 \<le> k" "k < 2 ^ 32"
  show ?thesis
  proof (cases "k < 2 ^ 31")
    case True
    with a have "k div 2 ^ 31 = 0" by simp
    then show ?thesis using True by (simp add: bit_iff_odd)
  next
    case False
    with a have "k div 2 ^ 31 = 1" by simp
    then show ?thesis using False by (simp add: bit_iff_odd)
  qed
qed

lemma sint_nonneg_iff_unat: "(0 \<le> sint (x :: ulong)) = (unat x < 2 ^ 31)"
proof -
  have b: "0 \<le> uint x" "uint x < 2 ^ 32"
    using uint_lt2p [of x] by simp_all
  have "(0 \<le> sint x) = (\<not> bit (uint x) 31)"
    by (simp add: sint_uint)
  also have "\<dots> = (uint x < 2 ^ 31)"
    using bit31_int [OF b] by linarith
  also have "\<dots> = (unat x < 2 ^ 31)"
    by (rule uint_lt_iff_unat)
  finally show ?thesis .
qed

lemma unat_sub_wrap: "unat ((a :: ulong) - b) = (unat a + 2 ^ 32 - unat b) mod 2 ^ 32"
proof -
  define x y where "x = unat a" and "y = unat b"
  have la: "x < 4294967296" and lb: "y < 4294967296"
    using unsigned_less [of a, where ?'a = nat] unsigned_less [of b, where ?'a = nat]
    by (simp_all add: x_def y_def)
  have "unat (a - b) = (if y \<le> x then x - y else x + 4294967296 - y)"
    by (simp add: unat_sub_if_size word_size x_def y_def)
  also have "\<dots> = (x + 4294967296 - y) mod 4294967296"
  proof (cases "y \<le> x")
    case True
    then have "x + 4294967296 - y = (x - y) + 4294967296" by linarith
    moreover have "x - y < 4294967296" using la by linarith
    ultimately show ?thesis using True by (simp only: mod_add_self2 mod_less if_True)
  next
    case False
    then have "x + 4294967296 - y < 4294967296" using lb by linarith
    then show ?thesis using False by (simp only: mod_less if_False)
  qed
  finally show ?thesis by (simp add: x_def y_def)
qed

text \<open>
  Claim C3. For every \<open>now\<close> and every deadline of the 32-bit clock, \<open>check(now)\<close>
  returns true exactly when the timer is enabled and the forward distance from the
  deadline to \<open>now\<close>, taken modulo \<open>2^32\<close>, is less than \<open>2^31\<close>. A disabled timer
  never reports expiry.
\<close>

theorem Timer_check_wraparound:
  "fst (Timer_check t now) =
     (enabled t \<and> (unat now + 2 ^ 32 - unat (timeout t)) mod 2 ^ 32 < 2 ^ 31)"
  by (simp add: Timer_check_def Let_def sint_nonneg_iff_unat unat_sub_wrap)

lemma Timer_check_disabled: "\<not> enabled t \<Longrightarrow> Timer_check t now = (False, t)"
  by (simp add: Timer_check_def)

lemma Timer_check_fired: "fst (Timer_check t now) \<Longrightarrow> \<not> enabled (snd (Timer_check t now))"
  by (simp add: Timer_check_def Let_def)

lemma Timer_checks_disabled:
  "\<not> enabled t \<Longrightarrow> Timer_checks t nows = (replicate (length nows) False, t)"
  by (induction nows) (simp_all add: Timer_check_disabled)

text \<open>
  Claim C8. The timer is one-shot: once \<open>check\<close> has returned true, every later
  \<open>check\<close>, at whatever instants, returns false as long as \<open>set\<close> is not called;
  \<open>set(deadline)\<close> arms every timer \<open>t'\<close>, whatever its state (fired, armed or never
  armed), for the new deadline, and it then fires at that deadline.
\<close>

theorem Timer_one_shot:
  "fst (Timer_check t now) \<Longrightarrow>
     fst (Timer_checks (snd (Timer_check t now)) nows) = replicate (length nows) False
     \<and> Timer_set (snd (Timer_checks (snd (Timer_check t now)) nows)) deadline
         = \<lparr>timeout = deadline, enabled = True\<rparr>
     \<and> fst (Timer_check (Timer_set (snd (Timer_checks (snd (Timer_check t now)) nows)) deadline) deadline)
     \<and> Timer_set t' deadline = \<lparr>timeout = deadline, enabled = True\<rparr>
     \<and> fst (Timer_check (Timer_set t' deadline) deadline)"
proof -
  assume f: "fst (Timer_check t now)"
  have d: "\<not> enabled (snd (Timer_check t now))"
    using Timer_check_fired [OF f] .
  have c: "Timer_checks (snd (Timer_check t now)) nows
             = (replicate (length nows) False, snd (Timer_check t now))"
    by (rule Timer_checks_disabled [OF d])
  have s: "Timer_set u deadline = \<lparr>timeout = deadline, enabled = True\<rparr>" for u :: Timer
    by (cases u) (simp add: Timer_set_def)
  have k: "fst (Timer_check \<lparr>timeout = deadline, enabled = True\<rparr> deadline)"
    by (simp add: Timer_check_def)
  show ?thesis
    by (simp add: c s k)
qed

theorem Timer_one_shot_witness:
  "fst (Timer_check \<lparr>timeout = 1000, enabled = True\<rparr> 1000)
   \<and> fst (Timer_checks (snd (Timer_check \<lparr>timeout = 1000, enabled = True\<rparr> 1000)) [1000, 2000, 5])
       = [False, False, False]
   \<and> Timer_set \<lparr>timeout = 7, enabled = True\<rparr> 42 = \<lparr>timeout = 42, enabled = True\<rparr>
   \<and> Timer_set \<lparr>timeout = 7, enabled = False\<rparr> 42 = \<lparr>timeout = 42, enabled = True\<rparr>"
  using Timer_one_shot [of "\<lparr>timeout = 1000, enabled = True\<rparr>" 1000 "[1000, 2000, 5]" 42
          "\<lparr>timeout = 7, enabled = True\<rparr>"]
        Timer_one_shot [of "\<lparr>timeout = 1000, enabled = True\<rparr>" 1000 "[1000, 2000, 5]" 42
          "\<lparr>timeout = 7, enabled = False\<rparr>"]
  by (simp add: Timer_check_def)

section \<open>The scan\<close>

lemmas run_defs = State_setup_def read_magic_def MAGIC_NUMBER_def boot_env_def boot_state_def
  State_init_def State_command_def State_commands.simps drain_payload.simps open_pins.simps
  cleanup_pins.simps next_serial_byte_def State_dispatch_def payload_length_def
  Serial_out_def Key_setup_def Key_init_def Timer_init_def zero_key_def already_setup_def hw_call_def

lemmas tick_defs = Key_tick_def Key_tick_loop.simps Key_tick_key_def micros_def Timer_check_def Timer_set_def
  Serial_write_def Serial_out_def event_byte_def clock_of_def pins_up_def pin5_down_def
  boot_env_def pressed_env_def demo_state_def zero_key_def armed_key_def Let_def

text \<open>The input loop starts in \<open>demo_state\<close> when the host sent the magic number,
  \<open>ADD_KEY\<close> for pin 5 and \<open>FINISH\<close>.\<close>

lemma demo_state_reachable:
  "map_option (fst \<circ> snd)
     (State_setup boot_state (boot_env ts (MAGIC_NUMBER @ [0xAD, 0, 1, 5, 0x0F, 0, 0])))
     = Some demo_state"
  by (simp add: run_defs demo_state_def)

text \<open>
  What the loop body does with a pending change: it is reported exactly when the check of
  the timer returns false, that is when the timer is disabled or armed and not yet
  expired; when the check returns true (armed and expired) nothing is sent.
\<close>

lemma Key_tick_key_idle:
  "was_down key = pin_low e (pin key) \<Longrightarrow> Key_tick_key await d i key e = (key, e)"
  by (simp add: Key_tick_key_def)

lemma Key_tick_key_reported:
  "was_down key \<noteq> pin_low e (pin key) \<Longrightarrow>
   \<not> fst (Timer_check (debounce_timer key) (micros_src e (micros_calls e))) \<Longrightarrow>
     tx (snd (Key_tick_key await d i key e)) = tx e @ [Byte (event_byte i (pin_low e (pin key)))]
     \<and> was_down (fst (Key_tick_key await d i key e)) = pin_low e (pin key)"
  by (auto simp: Key_tick_key_def micros_def Timer_check_def Serial_write_def Serial_out_def Let_def)

lemma Key_tick_key_withheld:
  "was_down key \<noteq> pin_low e (pin key) \<Longrightarrow>
   fst (Timer_check (debounce_timer key) (micros_src e (micros_calls e))) \<Longrightarrow>
     tx (snd (Key_tick_key await d i key e)) = tx e
     \<and> was_down (fst (Key_tick_key await d i key e)) = was_down key"
  by (auto simp: Key_tick_key_def micros_def Timer_check_def Serial_write_def Serial_out_def Let_def)

lemma Key_tick_loop_idle:
  "(\<forall>j. i \<le> j \<and> j < key_count st \<longrightarrow> \<not> pending st e j) \<Longrightarrow> Key_tick_loop st e i = (st, e)"
proof (induction n \<equiv> "key_count st - i" arbitrary: i)
  case 0
  then show ?case by (subst Key_tick_loop.simps) simp
next
  case (Suc n)
  then have lt: "i < key_count st" by simp
  with Suc.prems have "was_down (keys st ! i) = pin_low e (pin (keys st ! i))"
    by (simp add: pending_def)
  then have k: "Key_tick_key (await_smoothness st) (debounce_micros st) i (keys st ! i) e
                  = (keys st ! i, e)"
    by (rule Key_tick_key_idle)
  have "Key_tick_loop st e (Suc i) = (st, e)"
    using Suc.hyps Suc.prems by (intro Suc.hyps(1)) auto
  then show ?case using lt k by (subst Key_tick_loop.simps) simp
qed

lemma Key_tick_idle: "no_pending st e \<Longrightarrow> tx (snd (Key_tick st e)) = tx e"
proof -
  assume n: "no_pending st e"
  have "\<forall>j. 0 \<le> j \<and> j < key_count st \<longrightarrow> \<not> pending st (e\<lparr>irq_on := False, micros_calls := Suc (micros_calls e)\<rparr>) j"
    using n by (simp add: no_pending_def pending_def list_all_iff)
  then have "Key_tick_loop st (e\<lparr>irq_on := False, micros_calls := Suc (micros_calls e)\<rparr>) 0
               = (st, e\<lparr>irq_on := False, micros_calls := Suc (micros_calls e)\<rparr>)"
    by (rule Key_tick_loop_idle)
  then show ?thesis
    by (simp add: Key_tick_def micros_def Let_def)
qed

text \<open>
  Claim C1 (the code departs from it). The claim: a pending change is reported if and
  only if the key's timer is disabled or has expired; an armed timer that has not expired
  blocks it. The code at \<open>armed_key\<close>, whose pin reads LOW: at the instant 500 the
  timer (deadline 1000) has not expired, and the event \<open>0x80\<close> is sent and the reported
  state updated; at the instant 1500 it has expired, and nothing is sent.
\<close>

theorem Key_tick_key_inverted:
  "was_down armed_key \<noteq> pin_low (pressed_env [500]) (pin armed_key)
   \<and> enabled (debounce_timer armed_key)
   \<and> \<not> fst (Timer_check (debounce_timer armed_key) 500)
   \<and> tx (snd (Key_tick_key True 1000 0 armed_key (pressed_env [500]))) = [Byte 0x80]
   \<and> was_down (fst (Key_tick_key True 1000 0 armed_key (pressed_env [500]))) = True
   \<and> fst (Timer_check (debounce_timer armed_key) 1500)
   \<and> tx (snd (Key_tick_key True 1000 0 armed_key (pressed_env [1500]))) = []
   \<and> was_down (fst (Key_tick_key True 1000 0 armed_key (pressed_env [1500]))) = False"
  by (simp add: tick_defs)

text \<open>
  Claim C2 (the code departs from it). The claim: a transition that is then held is
  reported once, on the first call at or after the end of the debounce window and never
  before. The code, from \<open>demo_state\<close>: the key is pressed and reported at the instant 0,
  which arms the timer for 1000; it is released and held from the instant 100 on. The
  call at 100, inside the window, already sends the release event \<open>0x00\<close>; the call at
  1000 sends nothing more.
\<close>

theorem Key_ticks_reports_inside_window:
  "tx (snd (Key_ticks demo_state (boot_env [0, 0, 0, 0, 100, 100, 100, 100, 1000] []) [pin5_down]))
     = [Byte 0x80]
   \<and> debounce_timer (keys (fst (Key_ticks demo_state
         (boot_env [0, 0, 0, 0, 100, 100, 100, 100, 1000] []) [pin5_down])) ! 0)
     = \<lparr>timeout = 1000, enabled = True\<rparr>
   \<and> tx (snd (Key_ticks demo_state (boot_env [0, 0, 0, 0, 100, 100, 100, 100, 1000] [])
         [pin5_down, pins_up]))
     = [Byte 0x80, Byte 0x00]
   \<and> tx (snd (Key_ticks demo_state (boot_env [0, 0, 0, 0, 100, 100, 100, 100, 1000] [])
         [pin5_down, pins_up, pins_up]))
     = [Byte 0x80, Byte 0x00]"
  by (simp add: tick_defs)

text \<open>
  Claim C5 as stated fails: after a call at the instant 0 with all pins HIGH, which moves
  \<open>min_tick_time\<close> to 50, pin 5 goes LOW; the call at the instant 20 is turned away by
  \<open>micros() < min_tick_time\<close> and sends nothing, and the next call, at 60 with the pins
  as they were, sends \<open>0x80\<close>.
\<close>

theorem Key_tick_second_call_emits:
  "tx (snd (Key_ticks demo_state (boot_env [0, 0, 20, 60] []) [pins_up, pin5_down])) = []
   \<and> pin_low (snd (Key_ticks demo_state (boot_env [0, 0, 20, 60] []) [pins_up, pin5_down])) = pin5_down
   \<and> tx (snd (Key_tick
             (fst (Key_ticks demo_state (boot_env [0, 0, 20, 60] []) [pins_up, pin5_down]))
             (snd (Key_ticks demo_state (boot_env [0, 0, 20, 60] []) [pins_up, pin5_down]))))
       = [Byte 0x80]"
  by (simp add: tick_defs)

text \<open>
  Claim C5, amended. When \<open>Key_tick\<close> is called twice in succession with no change of
  the pins in between and the first call left no change pending (every key's reported
  state equals what its pin reads), the second call sends nothing.
\<close>

theorem Key_tick_twice_idle:
  "no_pending (fst (Key_tick st e)) (snd (Key_tick st e)) \<Longrightarrow>
     tx (snd (Key_tick (fst (Key_tick st e)) (snd (Key_tick st e)))) = tx (snd (Key_tick st e))"
  by (rule Key_tick_idle)

theorem Key_tick_twice_idle_witness:
  "no_pending (fst (Key_tick demo_state (pressed_env [0, 0, 0, 0, 60])))
              (snd (Key_tick demo_state (pressed_env [0, 0, 0, 0, 60])))
   \<and> tx (snd (Key_tick demo_state (pressed_env [0, 0, 0, 0, 60]))) = [Byte 0x80]
   \<and> tx (snd (Key_tick (fst (Key_tick demo_state (pressed_env [0, 0, 0, 0, 60])))
                       (snd (Key_tick demo_state (pressed_env [0, 0, 0, 0, 60])))))
       = [Byte 0x80]"
proof -
  have n: "no_pending (fst (Key_tick demo_state (pressed_env [0, 0, 0, 0, 60])))
                      (snd (Key_tick demo_state (pressed_env [0, 0, 0, 0, 60])))"
    by (simp add: tick_defs no_pending_def pending_def)
  have t: "tx (snd (Key_tick demo_state (pressed_env [0, 0, 0, 0, 60]))) = [Byte 0x80]"
    by (simp add: tick_defs)
  show ?thesis
    using n t Key_tick_twice_idle [OF n] by simp
qed

section \<open>The handshake\<close>

text \<open>
  When the loop that reads the magic number ends, the bytes read are some bytes (as many
  as the garbage count says) followed by the magic number; and it ends right after the
  magic number when none of the bytes before it is the first byte of the magic number.
\<close>

lemma resync_Some:
  "resync i g bs = Some (g', rest) \<Longrightarrow> i \<le> 8 \<Longrightarrow>
     \<exists>pre. take i MAGIC_NUMBER @ bs = pre @ MAGIC_NUMBER @ rest \<and> g' = g + int (length pre)"
proof (induction bs arbitrary: i g)
  case Nil
  then have "i = 8" by (simp split: if_splits)
  with Nil show ?case by (simp add: MAGIC_NUMBER_def split: if_splits)
next
  case (Cons b bs)
  have len: "length MAGIC_NUMBER = 8" by (simp add: MAGIC_NUMBER_def)
  show ?case
  proof (cases "i < 8")
    case False
    with Cons.prems have "i = 8" "g' = g" "rest = b # bs" by simp_all
    then show ?thesis using len by simp
  next
    case lt: True
    show ?thesis
    proof (cases "b = MAGIC_NUMBER ! i")
      case True
      with lt Cons.prems have "resync (i + 1) g bs = Some (g', rest)" by simp
      from Cons.IH [OF this] lt obtain pre
        where p: "take (i + 1) MAGIC_NUMBER @ bs = pre @ MAGIC_NUMBER @ rest"
          and g: "g' = g + int (length pre)" by auto
      have "take i MAGIC_NUMBER @ (b # bs) = take (i + 1) MAGIC_NUMBER @ bs"
        using lt len True by (simp add: take_Suc_conv_app_nth)
      with p g show ?thesis by auto
    next
      case False
      with lt Cons.prems have "resync 0 (g + int (i + 1)) bs = Some (g', rest)" by simp
      from Cons.IH [OF this] obtain pre
        where p: "bs = pre @ MAGIC_NUMBER @ rest"
          and g: "g' = g + int (i + 1) + int (length pre)" by auto
      have "take i MAGIC_NUMBER @ (b # bs) = (take i MAGIC_NUMBER @ b # pre) @ MAGIC_NUMBER @ rest"
        using p by simp
      moreover have "g' = g + int (length (take i MAGIC_NUMBER @ b # pre))"
        using g lt len by simp
      ultimately show ?thesis by blast
    qed
  qed
qed

lemma resync_sound:
  "resync 0 0 bs = Some (garbage, rest) \<Longrightarrow>
     \<exists>pre. bs = pre @ MAGIC_NUMBER @ rest \<and> garbage = int (length pre)"
  using resync_Some [of 0 0 bs garbage rest] by simp

lemma resync_magic: "resync 0 g (MAGIC_NUMBER @ rest) = Some (g, rest)"
  by (cases rest) (simp_all add: MAGIC_NUMBER_def)

lemma resync_clean:
  "0x53 \<notin> set pre \<Longrightarrow> resync 0 g (pre @ MAGIC_NUMBER @ rest) = Some (g + int (length pre), rest)"
proof (induction pre arbitrary: g)
  case Nil
  show ?case by (simp add: resync_magic)
next
  case (Cons b pre)
  then have "b \<noteq> MAGIC_NUMBER ! 0" by (simp add: MAGIC_NUMBER_def)
  with Cons show ?case by simp
qed

text \<open>
  Claim C4 (the code departs from it). The claim: the device enters configuration
  exactly when the last 8 bytes read are the magic number, so that after any garbage
  followed by the magic number it is configuring and reports the garbage before it.
  The code, when the host sends the byte \<open>'S'\<close> and then the magic number: the nine
  bytes are read, the last eight are the magic number, and the device is still in the
  loop; a second magic number lets it out, with 9 bytes counted as garbage.
\<close>

theorem resync_misses_magic_after_S:
  "drop 1 (0x53 # MAGIC_NUMBER) = MAGIC_NUMBER
   \<and> resync 0 0 (0x53 # MAGIC_NUMBER) = None
   \<and> State_setup boot_state (boot_env [0] (0x53 # MAGIC_NUMBER)) = None
   \<and> resync 0 0 (0x53 # MAGIC_NUMBER @ MAGIC_NUMBER) = Some (9, [])"
  by (simp add: MAGIC_NUMBER_def State_setup_def read_magic_def boot_env_def)

section \<open>The command loop\<close>



lemma drain_payload_zero: "drain_payload 0 e = Some e"
  by (subst drain_payload.simps) simp

lemma State_commands_step:
  "State_command st e = Some (Continue, st', e') \<Longrightarrow> State_commands st e = State_commands st' e'"
  by (subst State_commands.simps) simp

lemma State_command_finish:
  "rx e = SETUPCMD_FINISH # 0 # 0 # rest \<Longrightarrow>
     State_command st e
       = Some (Finished, st,
               e\<lparr>rx := rest, tx := tx e @ [Text ''finished handling setup commands'', Newline]\<rparr>)"
  by (simp add: State_command_def State_dispatch_def next_serial_byte_def Serial_out_def
        payload_length_def drain_payload_zero)

lemma State_commands_finish:
  "rx e = SETUPCMD_FINISH # 0 # 0 # rest \<Longrightarrow>
     State_commands st e
       = Some (Finished, st,
               e\<lparr>rx := rest, tx := tx e @ [Text ''finished handling setup commands'', Newline]\<rparr>)"
  by (subst State_commands.simps) (simp add: State_command_finish)




section \<open>The reset command\<close>

lemma cleanup_pins_none: "key_count st = 0 \<Longrightarrow> cleanup_pins st e 0 = e"
  by (subst cleanup_pins.simps) simp

lemma State_command_reset:
  "rx e = CMD_RESET # hi # lo # rest \<Longrightarrow>
     State_command st e
       = Some (ResetRequested, st, e\<lparr>rx := rest, tx := tx e @ [Text ''reset requested'', Newline]\<rparr>)"
  by (simp add: State_command_def State_dispatch_def next_serial_byte_def Serial_out_def)

lemma State_commands_reset:
  "rx e = CMD_RESET # hi # lo # rest \<Longrightarrow>
     State_commands st e
       = Some (ResetRequested, st, e\<lparr>rx := rest, tx := tx e @ [Text ''reset requested'', Newline]\<rparr>)"
  by (subst State_commands.simps) (simp add: State_command_reset)

text \<open>
  What the code does with a \<open>RESET\<close> command, whatever payload length its header
  declares: the command loop ends after the three header bytes, and the bytes after
  them are still in the serial input when \<open>State_run\<close> returns.
\<close>

lemma reset_command_stops_at_header:
  "State_commands st (e\<lparr>rx := CMD_RESET # hi # lo # rest\<rparr>)
     = Some (ResetRequested, st, e\<lparr>rx := rest, tx := tx e @ [Text ''reset requested'', Newline]\<rparr>)"
proof -
  have "rx (e\<lparr>rx := CMD_RESET # hi # lo # rest\<rparr>) = CMD_RESET # hi # lo # rest"
    by simp
  from State_commands_reset [OF this, of st] show ?thesis
    by simp
qed

text \<open>
  Claim C7 (the code departs from it). The claim: a \<open>RESET\<close> command with a declared
  payload has that payload read and discarded before configuration is aborted, so that
  the next session does not see those bytes. The code: a \<open>RESET\<close> command that declares
  two payload bytes ends the command loop with the two bytes unread. And when the host
  sends the magic number and a \<open>RESET\<close> command that declares 15 payload bytes, the
  payload being the magic number, \<open>ADD_KEY\<close> for pin 9 and \<open>FINISH\<close>:
  \<open>State_run\<close> returns with all 15 bytes unread, and the next run of \<open>State_run\<close>
  takes them as its handshake and its commands: it registers pin 9 and enters the input
  loop.
\<close>

theorem reset_command_leaves_payload:
  "State_command demo_state (boot_env [0] [0xEE, 0, 2, 0x41, 0x42])
     = Some (ResetRequested, demo_state,
             (boot_env [0] [0xEE, 0, 2, 0x41, 0x42])
               \<lparr>rx := [0x41, 0x42], tx := [Text ''reset requested'', Newline]\<rparr>)
   \<and> payload_length 0 15 = 15
   \<and> length (MAGIC_NUMBER @ [0xAD, 0, 1, 9, 0x0F, 0, 0]) = 15
   \<and> map_option fst
        (State_setup boot_state
           (boot_env [0] (MAGIC_NUMBER @ [0xEE, 0, 15] @ MAGIC_NUMBER @ [0xAD, 0, 1, 9, 0x0F, 0, 0])))
       = Some Quit
   \<and> map_option (rx \<circ> snd \<circ> snd)
        (State_setup boot_state
           (boot_env [0] (MAGIC_NUMBER @ [0xEE, 0, 15] @ MAGIC_NUMBER @ [0xAD, 0, 1, 9, 0x0F, 0, 0])))
       = Some (MAGIC_NUMBER @ [0xAD, 0, 1, 9, 0x0F, 0, 0])
   \<and> map_option fst
        (loop_next (State_setup boot_state
           (boot_env [0] (MAGIC_NUMBER @ [0xEE, 0, 15] @ MAGIC_NUMBER @ [0xAD, 0, 1, 9, 0x0F, 0, 0]))))
       = Some Streaming
   \<and> map_option (key_count \<circ> fst \<circ> snd)
        (loop_next (State_setup boot_state
           (boot_env [0] (MAGIC_NUMBER @ [0xEE, 0, 15] @ MAGIC_NUMBER @ [0xAD, 0, 1, 9, 0x0F, 0, 0]))))
       = Some 1
   \<and> map_option (map pin \<circ> take 1 \<circ> keys \<circ> fst \<circ> snd)
        (loop_next (State_setup boot_state
           (boot_env [0] (MAGIC_NUMBER @ [0xEE, 0, 15] @ MAGIC_NUMBER @ [0xAD, 0, 1, 9, 0x0F, 0, 0]))))
       = Some [9]
   \<and> map_option (rx \<circ> snd \<circ> snd)
        (loop_next (State_setup boot_state
           (boot_env [0] (MAGIC_NUMBER @ [0xEE, 0, 15] @ MAGIC_NUMBER @ [0xAD, 0, 1, 9, 0x0F, 0, 0]))))
       = Some []"
proof -
  have take_one: "take (Suc 0) xs = [xs ! 0]" if "0 < length xs" for xs :: "Key list"
    using that by (cases xs) simp_all
  show ?thesis
    by (simp add: run_defs loop_next_def take_one)
qed

section \<open>The start of a session\<close>

lemma open_pins_none: "key_count st = 0 \<Longrightarrow> open_pins st e 0 = e"
  by (subst open_pins.simps) simp

lemma State_command_set_debounce:
  "rx e = SETUPCMD_SET_DEBOUNCE # 0 # 4 # b3 # b2 # b1 # b0 # rest \<Longrightarrow>
     State_command st e
       = Some (Continue, st\<lparr>debounce_micros := debounce_value b3 b2 b1 b0\<rparr>,
               e\<lparr>rx := rest,
                 tx := tx e @ [Text ''set debounce to '', Millis (debounce_value b3 b2 b1 b0),
                               Text ''ms'', Newline]\<rparr>)"
  by (simp add: State_command_def State_dispatch_def next_serial_byte_def set_debounce_def
        Serial_out_def payload_length_def drain_payload_zero)

lemma State_command_add_key:
  "rx e = SETUPCMD_ADD_KEY # 0 # 1 # p # rest \<Longrightarrow> key_count st < MAX_KEYS \<Longrightarrow>
     State_command st e
       = Some (Continue,
               st\<lparr>keys := (keys st)[key_count st := Key_init (keys st ! key_count st) p],
                  key_count := key_count st + 1\<rparr>,
               e\<lparr>rx := rest,
                 tx := tx e @ [Text ''added key '', Num (int (key_count st)), Text '' to pin '',
                               Num (uint p), Newline]\<rparr>)"
  by (simp add: State_command_def State_dispatch_def next_serial_byte_def Key_setup_def
        Serial_out_def payload_length_def drain_payload_zero)

text \<open>
  After the magic number, \<open>State_run\<close> runs the command loop from \<open>State_init st\<close>, and
  the state the loop ends with is the state the input loop starts with.
\<close>

lemma State_setup_after_magic:
  assumes "State_commands (State_init st)
             (Serial_out (map Byte MAGIC_NUMBER @
                [Text ''read '', Num 0, Text '' bytes of garbage before magic number'', Newline,
                 Text ''run #'', Num (static_runs e), Text '' since last reset'', Newline,
                 Text ''handling setup commands'', Newline]) (e\<lparr>rx := cmds\<rparr>))
             = Some (Finished, st', e3)"
  shows "State_setup st (e\<lparr>rx := MAGIC_NUMBER @ cmds\<rparr>)
           = Some (Streaming, st',
                   Serial_out [Text ''finished setting up, handling input'', Newline, Newline]
                     (open_pins st' e3 0))"
proof -
  have m: "read_magic (e\<lparr>rx := MAGIC_NUMBER @ cmds\<rparr>) = Some (0, e\<lparr>rx := cmds\<rparr>)"
    using resync_magic [of 0 cmds] by (simp add: read_magic_def)
  show ?thesis
    using assms by (simp add: State_setup_def m Let_def)
qed

text \<open>
  Claim C9. A session starts from the defaults: \<open>State::init\<close> sets the debounce time to
  1000 microseconds, \<open>await_smoothness\<close> to true, \<open>enable_interrupts\<close> to false and
  \<open>key_count\<close> to 0, and \<open>State_run\<close> calls it before it reads anything, so that the
  configuration commands work on the defaults. When the host sends only the magic number
  and \<open>FINISH\<close>, the input loop starts with exactly that state; when it sends the magic
  number, one \<open>SET_DEBOUNCE\<close> (or one \<open>ADD_KEY\<close>) and \<open>FINISH\<close>, the input loop starts
  with the defaults in which only the debounce time is the one sent (or only the key is
  added, as key 0).
\<close>

theorem session_defaults:
  "debounce_micros (State_init st) = 1000
   \<and> await_smoothness (State_init st) = True
   \<and> enable_interrupts (State_init st) = False
   \<and> key_count (State_init st) = 0
   \<and> State_setup st (e\<lparr>rx := MAGIC_NUMBER @ [SETUPCMD_FINISH, 0, 0] @ rest\<rparr>)
       = Some (Streaming, State_init st,
               e\<lparr>rx := rest,
                 tx := tx e @ map Byte MAGIC_NUMBER @
                   [Text ''read '', Num 0, Text '' bytes of garbage before magic number'', Newline,
                    Text ''run #'', Num (static_runs e), Text '' since last reset'', Newline,
                    Text ''handling setup commands'', Newline,
                    Text ''finished handling setup commands'', Newline,
                    Text ''finished setting up, handling input'', Newline, Newline]\<rparr>)
   \<and> map_option (fst \<circ> snd)
        (State_setup st (e\<lparr>rx := MAGIC_NUMBER @
           [SETUPCMD_SET_DEBOUNCE, 0, 4, b3, b2, b1, b0, SETUPCMD_FINISH, 0, 0] @ rest\<rparr>))
       = Some ((State_init st)\<lparr>debounce_micros := debounce_value b3 b2 b1 b0\<rparr>)
   \<and> map_option (fst \<circ> snd)
        (State_setup st (e\<lparr>rx := MAGIC_NUMBER @
           [SETUPCMD_ADD_KEY, 0, 1, p, SETUPCMD_FINISH, 0, 0] @ rest\<rparr>))
       = Some ((State_init st)\<lparr>keys := (keys st)[0 := Key_init (keys st ! 0) p], key_count := 1\<rparr>)"
proof -
  let ?banner = "map Byte MAGIC_NUMBER @
     [Text ''read '', Num 0, Text '' bytes of garbage before magic number'', Newline,
      Text ''run #'', Num (static_runs e), Text '' since last reset'', Newline,
      Text ''handling setup commands'', Newline]"
  have i: "debounce_micros (State_init st) = 1000" "await_smoothness (State_init st) = True"
          "enable_interrupts (State_init st) = False" "key_count (State_init st) = 0"
    by (simp_all add: State_init_def)
  have fin: "State_setup st (e\<lparr>rx := MAGIC_NUMBER @ [SETUPCMD_FINISH, 0, 0] @ rest\<rparr>)
       = Some (Streaming, State_init st,
               e\<lparr>rx := rest,
                 tx := tx e @ map Byte MAGIC_NUMBER @
                   [Text ''read '', Num 0, Text '' bytes of garbage before magic number'', Newline,
                    Text ''run #'', Num (static_runs e), Text '' since last reset'', Newline,
                    Text ''handling setup commands'', Newline,
                    Text ''finished handling setup commands'', Newline,
                    Text ''finished setting up, handling input'', Newline, Newline]\<rparr>)"
  proof -
    let ?e2 = "Serial_out ?banner (e\<lparr>rx := SETUPCMD_FINISH # 0 # 0 # rest\<rparr>)"
    let ?e3 = "?e2\<lparr>rx := rest, tx := tx ?e2 @ [Text ''finished handling setup commands'', Newline]\<rparr>"
    have r2: "rx ?e2 = SETUPCMD_FINISH # 0 # 0 # rest"
      by (simp add: Serial_out_def)
    have c: "State_commands (State_init st) ?e2 = Some (Finished, State_init st, ?e3)"
      by (rule State_commands_finish [OF r2])
    have o: "open_pins (State_init st) ?e3 0 = ?e3"
      by (rule open_pins_none [OF i(4)])
    have "State_setup st (e\<lparr>rx := MAGIC_NUMBER @ SETUPCMD_FINISH # 0 # 0 # rest\<rparr>)
            = Some (Streaming, State_init st,
                    Serial_out [Text ''finished setting up, handling input'', Newline, Newline] ?e3)"
      using State_setup_after_magic [OF c] by (simp only: o)
    then show ?thesis
      by (simp add: Serial_out_def)
  qed
  have deb: "map_option (fst \<circ> snd)
        (State_setup st (e\<lparr>rx := MAGIC_NUMBER @
           [SETUPCMD_SET_DEBOUNCE, 0, 4, b3, b2, b1, b0, SETUPCMD_FINISH, 0, 0] @ rest\<rparr>))
       = Some ((State_init st)\<lparr>debounce_micros := debounce_value b3 b2 b1 b0\<rparr>)"
  proof -
    let ?st1 = "(State_init st)\<lparr>debounce_micros := debounce_value b3 b2 b1 b0\<rparr>"
    let ?e2 = "Serial_out ?banner
      (e\<lparr>rx := SETUPCMD_SET_DEBOUNCE # 0 # 4 # b3 # b2 # b1 # b0 # SETUPCMD_FINISH # 0 # 0 # rest\<rparr>)"
    let ?e3 = "?e2\<lparr>rx := SETUPCMD_FINISH # 0 # 0 # rest,
                  tx := tx ?e2 @ [Text ''set debounce to '', Millis (debounce_value b3 b2 b1 b0),
                                  Text ''ms'', Newline]\<rparr>"
    let ?e4 = "?e3\<lparr>rx := rest, tx := tx ?e3 @ [Text ''finished handling setup commands'', Newline]\<rparr>"
    have r2: "rx ?e2 = SETUPCMD_SET_DEBOUNCE # 0 # 4 # b3 # b2 # b1 # b0 # SETUPCMD_FINISH # 0 # 0 # rest"
      by (simp add: Serial_out_def)
    have r3: "rx ?e3 = SETUPCMD_FINISH # 0 # 0 # rest"
      by simp
    have "State_commands (State_init st) ?e2 = State_commands ?st1 ?e3"
      by (rule State_commands_step [OF State_command_set_debounce [OF r2]])
    also have "\<dots> = Some (Finished, ?st1, ?e4)"
      by (rule State_commands_finish [OF r3])
    finally have c: "State_commands (State_init st) ?e2 = Some (Finished, ?st1, ?e4)" .
    from State_setup_after_magic [OF c] show ?thesis
      by simp
  qed
  have add: "map_option (fst \<circ> snd)
        (State_setup st (e\<lparr>rx := MAGIC_NUMBER @
           [SETUPCMD_ADD_KEY, 0, 1, p, SETUPCMD_FINISH, 0, 0] @ rest\<rparr>))
       = Some ((State_init st)\<lparr>keys := (keys st)[0 := Key_init (keys st ! 0) p], key_count := 1\<rparr>)"
  proof -
    let ?s0 = "State_init st"
    let ?st1 = "?s0\<lparr>keys := (keys ?s0)[key_count ?s0 := Key_init (keys ?s0 ! key_count ?s0) p],
                    key_count := key_count ?s0 + 1\<rparr>"
    let ?e2 = "Serial_out ?banner
      (e\<lparr>rx := SETUPCMD_ADD_KEY # 0 # 1 # p # SETUPCMD_FINISH # 0 # 0 # rest\<rparr>)"
    let ?e3 = "?e2\<lparr>rx := SETUPCMD_FINISH # 0 # 0 # rest,
                  tx := tx ?e2 @ [Text ''added key '', Num (int (key_count ?s0)), Text '' to pin '',
                                  Num (uint p), Newline]\<rparr>"
    let ?e4 = "?e3\<lparr>rx := rest, tx := tx ?e3 @ [Text ''finished handling setup commands'', Newline]\<rparr>"
    have r2: "rx ?e2 = SETUPCMD_ADD_KEY # 0 # 1 # p # SETUPCMD_FINISH # 0 # 0 # rest"
      by (simp add: Serial_out_def)
    have k: "key_count ?s0 < MAX_KEYS"
      by (simp add: State_init_def)
    have r3: "rx ?e3 = SETUPCMD_FINISH # 0 # 0 # rest"
      by simp
    have "State_commands ?s0 ?e2 = State_commands ?st1 ?e3"
      by (rule State_commands_step [OF State_command_add_key [OF r2 k]])
    also have "\<dots> = Some (Finished, ?st1, ?e4)"
      by (rule State_commands_finish [OF r3])
    finally have c: "State_commands ?s0 ?e2 = Some (Finished, ?st1, ?e4)" .
    from State_setup_after_magic [OF c] show ?thesis
      by (simp add: State_init_def)
  qed
  show ?thesis
    using i fin deb add by (simp only: simp_thms)
qed

section \<open>The input loop\<close>

lemma Key_tick_key_rx:
  "Key_tick_key a d i k (e\<lparr>rx := r\<rparr>)
     = (fst (Key_tick_key a d i k e), (snd (Key_tick_key a d i k e))\<lparr>rx := r\<rparr>)"
  by (simp add: Key_tick_key_def micros_def Serial_write_def Serial_out_def Let_def
        split: prod.splits)

lemma Key_tick_loop_rx:
  "Key_tick_loop st (e\<lparr>rx := r\<rparr>) i
     = (fst (Key_tick_loop st e i), (snd (Key_tick_loop st e i))\<lparr>rx := r\<rparr>)"
proof (induction n \<equiv> "key_count st - i" arbitrary: st e i)
  case 0
  then show ?case by (subst (1 2 3) Key_tick_loop.simps) simp
next
  case (Suc n)
  then have lt: "i < key_count st" by simp
  obtain k e1 where b: "Key_tick_key (await_smoothness st) (debounce_micros st) i (keys st ! i) e
                          = (k, e1)"
    by (cases "Key_tick_key (await_smoothness st) (debounce_micros st) i (keys st ! i) e")
  have b': "Key_tick_key (await_smoothness st) (debounce_micros st) i (keys st ! i) (e\<lparr>rx := r\<rparr>)
              = (k, e1\<lparr>rx := r\<rparr>)"
    by (simp add: Key_tick_key_rx b)
  let ?st = "st\<lparr>keys := (keys st)[i := k]\<rparr>"
  have ih: "Key_tick_loop ?st (e1\<lparr>rx := r\<rparr>) (Suc i)
              = (fst (Key_tick_loop ?st e1 (Suc i)), (snd (Key_tick_loop ?st e1 (Suc i)))\<lparr>rx := r\<rparr>)"
    using Suc.hyps(2) lt by (intro Suc.hyps(1)) simp
  have l: "Key_tick_loop st e i = Key_tick_loop ?st e1 (Suc i)"
    using lt b by (subst Key_tick_loop.simps) simp
  have l': "Key_tick_loop st (e\<lparr>rx := r\<rparr>) i = Key_tick_loop ?st (e1\<lparr>rx := r\<rparr>) (Suc i)"
    using lt b' by (subst Key_tick_loop.simps) simp
  show ?case by (simp only: l l' ih)
qed

lemma Key_tick_rx:
  "Key_tick st (e\<lparr>rx := r\<rparr>) = (fst (Key_tick st e), (snd (Key_tick st e))\<lparr>rx := r\<rparr>)"
proof -
  let ?e1 = "e\<lparr>irq_on := False, micros_calls := Suc (micros_calls e)\<rparr>"
  obtain s2 e2 where l: "Key_tick_loop st ?e1 0 = (s2, e2)"
    by (cases "Key_tick_loop st ?e1 0")
  have "Key_tick_loop st (?e1\<lparr>rx := r\<rparr>) 0 = (s2, e2\<lparr>rx := r\<rparr>)"
    by (simp add: Key_tick_loop_rx l)
  moreover have "e\<lparr>rx := r, irq_on := False, micros_calls := Suc (micros_calls e)\<rparr> = ?e1\<lparr>rx := r\<rparr>"
    by simp
  ultimately have l': "Key_tick_loop st (e\<lparr>rx := r, irq_on := False, micros_calls := Suc (micros_calls e)\<rparr>) 0
                   = (s2, e2\<lparr>rx := r\<rparr>)"
    by (simp only:)
  show ?thesis
    by (simp add: Key_tick_def micros_def Let_def l l')
qed

lemma uint_reset_byte: "(uint (b :: byte) = 238) = (b = CMD_RESET)"
proof
  assume "uint b = 238"
  then have "word_of_int (uint b) = (word_of_int 238 :: byte)" by simp
  then show "b = CMD_RESET" by simp
next
  assume "b = CMD_RESET"
  then show "uint b = 238" by simp
qed

text \<open>
  Claim C10. One pass of the input loop is \<open>Key_tick\<close> followed by one
  \<open>Serial.read()\<close>: it takes at most one byte from the serial input. A byte other than
  the reset byte \<open>0xEE\<close> is dropped: the state and the board after the pass are what
  \<open>Key_tick\<close> alone leaves, the input one byte shorter, and the loop goes on, as it does
  when no byte is there. The reset byte, and only it, ends the loop.
\<close>

theorem stream_iteration_reads_one_byte:
  "stream_iteration st (e\<lparr>rx := []\<rparr>)
     = (Streaming, fst (Key_tick st e), (snd (Key_tick st e))\<lparr>rx := []\<rparr>)
   \<and> (b \<noteq> CMD_RESET \<longrightarrow>
        stream_iteration st (e\<lparr>rx := b # bs\<rparr>)
          = (Streaming, fst (Key_tick st e), (snd (Key_tick st e))\<lparr>rx := bs\<rparr>))
   \<and> stream_iteration st (e\<lparr>rx := CMD_RESET # bs\<rparr>)
       = (Quit, fst (Key_tick st e),
          cleanup_pins (fst (Key_tick st e)) ((snd (Key_tick st e))\<lparr>rx := bs\<rparr>) 0)"
  by (simp add: stream_iteration_def Key_tick_rx Serial_read_def uint_reset_byte)

theorem stream_iteration_reads_one_byte_witness:
  "(0x41 :: byte) \<noteq> CMD_RESET
   \<and> stream_iteration demo_state ((pressed_env [0, 0, 0, 0])\<lparr>rx := [0x41, 0x42]\<rparr>)
       = (Streaming, fst (Key_tick demo_state (pressed_env [0, 0, 0, 0])),
          (snd (Key_tick demo_state (pressed_env [0, 0, 0, 0])))\<lparr>rx := [0x42]\<rparr>)
   \<and> tx (snd (Key_tick demo_state (pressed_env [0, 0, 0, 0]))) = [Byte 0x80]"
  using stream_iteration_reads_one_byte [of demo_state "pressed_env [0, 0, 0, 0]" "0x41" "[0x42]"]
  by (simp add: tick_defs)

end
